theory Spec2Isabelle
  imports Complex_Main "HOL-Library.Word"
begin

section \<open>Vectors and matrices\<close>

text \<open>
  The source computes on \<^verbatim>\<open>double\<close> through Eigen. Here a coordinate is a \<^typ>\<open>real\<close>:
  rounding and the non-finite values of IEEE arithmetic are not part of this development.
  An \<^verbatim>\<open>Eigen::VectorXd\<close> is the list of its coefficients. An \<^verbatim>\<open>Eigen::MatrixXd\<close> is the
  list of its columns, the order Eigen stores them in: \<^verbatim>\<open>out.col(j) = v\<close> is a list update.
\<close>

type_synonym vec = "real list"
type_synonym mat = "real list list"

definition vadd :: "vec \<Rightarrow> vec \<Rightarrow> vec" where
  "vadd a b = map2 (+) a b"

definition vsub :: "vec \<Rightarrow> vec \<Rightarrow> vec" where
  "vsub a b = map2 (-) a b"

definition smult :: "real \<Rightarrow> vec \<Rightarrow> vec" where
  "smult c a = map ((*) c) a"

definition sdiv :: "vec \<Rightarrow> real \<Rightarrow> vec" where
  "sdiv a c = map (\<lambda>e. e / c) a"

text \<open>\<^verbatim>\<open>f.norm()\<close>: the Euclidean norm.\<close>

definition vnorm :: "vec \<Rightarrow> real" where
  "vnorm a = sqrt (sum_list (map (\<lambda>e. e * e) a))"

text \<open>\<^verbatim>\<open>Eigen::MatrixXd j(rows, cols)\<close>: storage for a matrix of the given shape. The source
  leaves the coefficients uninitialised; they are zero here.\<close>

definition new_matrix :: "nat \<Rightarrow> nat \<Rightarrow> mat" where
  "new_matrix r c = replicate c (replicate r 0)"

text \<open>\<^verbatim>\<open>std::numeric_limits<double>::epsilon()\<close>\<close>

definition machine_epsilon :: real where
  "machine_epsilon = 1 / 2 ^ 52"

text \<open>
  The factorisations of Eigen that the source calls are not part of the repository. They
  are taken as parameters:
  \<^item> \<open>qr_solve J f\<close> is \<^verbatim>\<open>J.colPivHouseholderQr().solve(f)\<close>,
  \<^item> \<open>lu_solve J f\<close> is \<^verbatim>\<open>J.fullPivLu().solve(f)\<close>,
  \<^item> \<open>lu_kernel J\<close> is \<^verbatim>\<open>J.fullPivLu().kernel()\<close>, a matrix whose columns form a basis of
    the null space of \<open>J\<close>.
\<close>

record linalg =
  qr_solve :: "mat \<Rightarrow> vec \<Rightarrow> vec"
  lu_solve :: "mat \<Rightarrow> vec \<Rightarrow> vec"
  lu_kernel :: "mat \<Rightarrow> mat"

section \<open>Constraint\<close>

text \<open>
  The members of \<^verbatim>\<open>ompl::base::Constraint\<close> that \<^verbatim>\<open>Constraint.cpp\<close> reads. \<open>func\<close> is the pure
  virtual \<^verbatim>\<open>function\<close>; \<open>jacobian_override\<close> is \<open>None\<close> for a constraint that keeps the
  default numeric \<^verbatim>\<open>jacobian\<close>. \<open>ambient_n\<close> and \<open>manifold_k\<close> are the members
  \<^verbatim>\<open>n_\<close> and \<^verbatim>\<open>k_\<close>. The declaration of \<^verbatim>\<open>projectionMaxIterations_\<close> is in a header
  outside the excerpt; it is taken to be \<^verbatim>\<open>unsigned int\<close>, the type of the counter it is
  compared with.
\<close>

record constraint =
  ambient_n :: nat
  manifold_k :: nat
  projectionTolerance :: real
  projectionMaxIterations :: "32 word"
  func :: "vec \<Rightarrow> vec"
  jacobian_override :: "(vec \<Rightarrow> mat \<Rightarrow> mat) option"

text \<open>Line 76: the step of the finite differences for a coordinate \<open>xj\<close>.\<close>

definition step_size :: "real \<Rightarrow> real" where
  "step_size xj = sqrt machine_epsilon * (if xj \<ge> 1 then xj else 1)"

text \<open>Lines 75 to 98: the body of the loop over the columns, on the locals
  \<open>(y1, y2, out)\<close>.\<close>

definition jacobian_column :: "constraint \<Rightarrow> vec \<Rightarrow> nat \<Rightarrow> vec \<times> vec \<times> mat \<Rightarrow> vec \<times> vec \<times> mat" where
  "jacobian_column C x j s =
     (case s of (y1, y2, out) \<Rightarrow>
       let h = step_size (x ! j);
           y1 = y1[j := y1 ! j + h];
           y2 = y2[j := y2 ! j - h];
           t1 = func C y1;
           t2 = func C y2;
           m1 = sdiv (vsub t1 t2) (y1 ! j - y2 ! j);
           y1 = y1[j := y1 ! j + h];
           y2 = y2[j := y2 ! j - h];
           t1 = func C y1;
           t2 = func C y2;
           m2 = sdiv (vsub t1 t2) (y1 ! j - y2 ! j);
           y1 = y1[j := y1 ! j + h];
           y2 = y2[j := y2 ! j - h];
           t1 = func C y1;
           t2 = func C y2;
           m3 = sdiv (vsub t1 t2) (y1 ! j - y2 ! j);
           out = out[j := vadd (vsub (smult (3 / 2) m1) (smult (3 / 5) m2)) (smult (1 / 10) m3)];
           y1 = y1[j := x ! j];
           y2 = y2[j := x ! j]
       in (y1, y2, out))"

text \<open>Lines 65 to 100: the default \<^verbatim>\<open>jacobian(x, out)\<close>; the result is \<open>out\<close> after the loop.\<close>

definition jacobian_numeric :: "constraint \<Rightarrow> vec \<Rightarrow> mat \<Rightarrow> mat" where
  "jacobian_numeric C x out =
     snd (snd (foldl (\<lambda>s j. jacobian_column C x j s) (x, x, out) [0..<ambient_n C]))"

text \<open>The virtual call \<^verbatim>\<open>jacobian(x, j)\<close>.\<close>

definition jacobian :: "constraint \<Rightarrow> vec \<Rightarrow> mat \<Rightarrow> mat" where
  "jacobian C x out =
     (case jacobian_override C of None \<Rightarrow> jacobian_numeric C x out | Some jac \<Rightarrow> jac x out)"

text \<open>Lines 113 to 115: the body of the Newton loop, on the locals \<open>(x, f, j)\<close>.\<close>

definition newton_update :: "constraint \<Rightarrow> linalg \<Rightarrow> vec \<times> vec \<times> mat \<Rightarrow> vec \<times> vec \<times> mat" where
  "newton_update C L s =
     (case s of (x, f, j) \<Rightarrow>
       let j = jacobian C x j;
           x = vsub x (qr_solve L j f);
           f = func C x
       in (x, f, j))"

text \<open>
  Line 110: \<^verbatim>\<open>while (f.norm() > projectionTolerance_ && iter++ < projectionMaxIterations_)\<close>.
  The counter is an \<^verbatim>\<open>unsigned int\<close>. The second operand is evaluated only when the first
  holds; it compares the old value of \<open>iter\<close> and then increments it, also when the
  comparison fails. The result is the value of \<open>iter\<close> and of the locals at loop exit.
\<close>

function project_loop :: "constraint \<Rightarrow> linalg \<Rightarrow> 32 word \<Rightarrow> vec \<times> vec \<times> mat \<Rightarrow> 32 word \<times> vec \<times> vec \<times> mat" where
  "project_loop C L iter s =
     (if vnorm (fst (snd s)) > projectionTolerance C then
        (if iter < projectionMaxIterations C
         then project_loop C L (iter + 1) (newton_update C L s)
         else (iter + 1, s))
      else (iter, s))"
  by pat_completeness auto
termination
proof (relation "measure (\<lambda>(C, L, iter, s). unat (projectionMaxIterations C) - unat iter)")
  show "wf (measure (\<lambda>(C, L, iter, s). unat (projectionMaxIterations C) - unat iter))"
    by simp
next
  fix C :: constraint and L :: linalg and iter :: "32 word" and s :: "vec \<times> vec \<times> mat"
  assume lt: "iter < projectionMaxIterations C"
  then have below: "unat iter < unat (projectionMaxIterations C)"
    by (simp add: word_less_nat_alt)
  have "unat (projectionMaxIterations C) < 2 ^ 32"
    using unsigned_less [of "projectionMaxIterations C", where ?'a = nat] by simp
  with below have "unat iter + 1 < 2 ^ 32"
    by simp
  then have "unat (iter + 1) = unat iter + 1"
    by (simp add: unat_word_ariths)
  with below show "((C, L, iter + 1, newton_update C L s), (C, L, iter, s))
      \<in> measure (\<lambda>(C, L, iter, s). unat (projectionMaxIterations C) - unat iter)"
    by simp
qed

text \<open>Lines 102 to 119: \<^verbatim>\<open>project(x)\<close> returns its boolean and the final value of the
  argument \<open>x\<close>, which the source updates in place.\<close>

definition project :: "constraint \<Rightarrow> linalg \<Rightarrow> vec \<Rightarrow> bool \<times> vec" where
  "project C L x =
     (let f = func C x;
          j = new_matrix (ambient_n C - manifold_k C) (ambient_n C);
          r = project_loop C L 0 (x, f, j)
      in (fst r \<le> projectionMaxIterations C, fst (snd r)))"

text \<open>Lines 121 to 126\<close>

definition distance :: "constraint \<Rightarrow> vec \<Rightarrow> real" where
  "distance C x = vnorm (func C x)"

text \<open>\<^verbatim>\<open>x.allFinite()\<close>: every coefficient is a finite number, which every real is.\<close>

definition allFinite :: "vec \<Rightarrow> bool" where
  "allFinite x = True"

text \<open>Lines 128 to 131\<close>

definition isSatisfied :: "constraint \<Rightarrow> vec \<Rightarrow> bool" where
  "isSatisfied C x = (allFinite x \<and> distance C x \<le> projectionTolerance C)"

section \<open>NullspaceStateSpace\<close>

datatype error = Exception string | InvalidMatrixProduct

text \<open>
  \<^verbatim>\<open>checkSpace\<close> looks at the dynamic type of the state space behind a
  \<^verbatim>\<open>SpaceInformation\<close>. An object carries the names of its class and of the classes that
  one derives from; the shared pointer \<^verbatim>\<open>si->getStateSpace()\<close> may hold no object.
\<close>

record state_space_object =
  class_names :: "string list"

record SpaceInformation =
  getStateSpace :: "state_space_object option"

text \<open>\<^verbatim>\<open>dynamic_cast<T *>(p)\<close>: the pointer itself when the object is a \<open>T\<close>, null otherwise
  and for a null \<open>p\<close>.\<close>

definition dynamic_cast :: "string \<Rightarrow> state_space_object option \<Rightarrow> state_space_object option" where
  "dynamic_cast T p =
     (case p of None \<Rightarrow> None
      | Some obj \<Rightarrow> if T \<in> set (class_names obj) then Some obj else None)"

text \<open>Lines 52 to 57\<close>

definition checkSpace :: "SpaceInformation \<Rightarrow> error + unit" where
  "checkSpace si =
     (if dynamic_cast ''NullspaceStateSpace'' (getStateSpace si) = None
      then Inl (Exception ''ompl::base::NullspaceStateSpace(): si needs to use an NullspaceStateSpace!'')
      else Inr ())"

text \<open>
  The state space with the collaborators that \<^verbatim>\<open>traverseManifold\<close> consults, none of which
  is in the excerpt: \<open>validSegmentCount\<close>, the ambient \<^verbatim>\<open>distance(a, b)\<close> of the space
  (\<open>space_distance\<close>) and the validity checker's \<^verbatim>\<open>isValid\<close> are parameters. The members
  \<^verbatim>\<open>n_\<close> and \<^verbatim>\<open>k_\<close> of the space are those of its constraint.
\<close>

record space =
  constraint_of :: constraint
  delta :: real
  validSegmentCount :: "vec \<Rightarrow> vec \<Rightarrow> int"
  space_distance :: "vec \<Rightarrow> vec \<Rightarrow> real"
  isValid :: "vec \<Rightarrow> bool"

text \<open>Modelled from the spec: \<^verbatim>\<open>RealVectorStateSpace::interpolate\<close>, which is not in the
  excerpt, is the linear interpolation between two points at a parameter.\<close>

definition interpolate :: "vec \<Rightarrow> vec \<Rightarrow> real \<Rightarrow> vec" where
  "interpolate a b t = map2 (\<lambda>p q. p + (q - p) * t) a b"

text \<open>\<^verbatim>\<open>.rowwise().reverse()\<close> reverses every row, that is the order of the columns.\<close>

definition rowwise_reverse :: "mat \<Rightarrow> mat" where
  "rowwise_reverse M = rev M"

definition mat_rows :: "mat \<Rightarrow> nat" where
  "mat_rows M = (case M of [] \<Rightarrow> 0 | c # _ \<Rightarrow> length c)"

text \<open>
  \<^verbatim>\<open>M * v\<close>: Eigen defines the product only when \<open>M\<close> has as many columns as \<open>v\<close> has
  coefficients (its assertion "invalid matrix product" otherwise); then it is the sum of
  the columns of \<open>M\<close> scaled by the coefficients of \<open>v\<close>.
\<close>

definition matrix_product :: "mat \<Rightarrow> vec \<Rightarrow> vec option" where
  "matrix_product M v =
     (if length M = length v
      then Some (foldr (\<lambda>(c, e) acc. vadd (smult e c) acc) (zip M v) (replicate (mat_rows M) 0))
      else None)"

text \<open>Lines 106 and 107: the new value of \<open>scratch\<close>, from the previous point \<open>pV\<close>, the
  residual \<open>f\<close> and the Jacobian \<open>j\<close> there, and the interpolated \<open>scratch\<close>.\<close>

definition corrected_point :: "linalg \<Rightarrow> mat \<Rightarrow> vec \<Rightarrow> vec \<Rightarrow> vec \<Rightarrow> vec option" where
  "corrected_point L j f pV scratch =
     (case matrix_product (rowwise_reverse (lu_kernel L j)) (vsub scratch pV) of
        None \<Rightarrow> None
      | Some tangential \<Rightarrow> Some (vadd (vsub pV (lu_solve L j f)) tangential))"

text \<open>The locals that the loop of \<^verbatim>\<open>traverseManifold\<close> carries from one iteration to the
  next; \<open>walk_stateList\<close> is \<open>None\<close> for a null \<^verbatim>\<open>stateList\<close>.\<close>

record walk =
  walk_dist :: real
  walk_previous :: vec
  walk_j :: mat
  walk_stateList :: "vec list option"

text \<open>\<^verbatim>\<open>if (stateList != nullptr) stateList->push_back(si_->cloneState(s))\<close>\<close>

definition push_back :: "vec list option \<Rightarrow> vec \<Rightarrow> vec list option" where
  "push_back stateList s = (case stateList of None \<Rightarrow> None | Some l \<Rightarrow> Some (l @ [s]))"

datatype step = Break "vec list option" | Continue walk

text \<open>Lines 97 to 129: one pass through the body of the loop. \<open>Break\<close> carries the path
  collector at the \<^verbatim>\<open>break\<close>, \<open>Continue\<close> the locals for the next test of the loop.\<close>

definition loop_body :: "space \<Rightarrow> linalg \<Rightarrow> vec \<Rightarrow> bool \<Rightarrow> walk \<Rightarrow> error + step" where
  "loop_body S L to interp w =
     (let t = delta S / walk_dist w;
          scratch = interpolate (walk_previous w) to t;
          pV = walk_previous w;
          f = func (constraint_of S) pV;
          j = jacobian (constraint_of S) pV (walk_j w)
      in case corrected_point L j f pV scratch of
           None \<Rightarrow> Inl InvalidMatrixProduct
         | Some scratch \<Rightarrow>
             let valid = (interp \<or> isValid S scratch);
                 deviated = (space_distance S (walk_previous w) scratch > 2 * delta S)
             in if \<not> valid \<or> deviated then Inr (Break (walk_stateList w))
                else
                  let stateList = push_back (walk_stateList w) scratch;
                      newDist = space_distance S scratch to
                  in if newDist \<ge> walk_dist w then Inr (Break stateList)
                     else Inr (Continue \<lparr>walk_dist = newDist, walk_previous = scratch,
                                         walk_j = j, walk_stateList = stateList\<rparr>))"

text \<open>
  Lines 94 to 130: the loop, with the flag \<open>there\<close> and the path collector at its exit. In
  real arithmetic the distances may decrease for ever without falling below \<open>delta\<close>, so
  the loop runs on fuel: \<open>None\<close> is a run that needs more passes than the fuel allows.
\<close>

fun traverse_loop :: "nat \<Rightarrow> space \<Rightarrow> linalg \<Rightarrow> vec \<Rightarrow> bool \<Rightarrow> walk \<Rightarrow> (error + bool \<times> vec list option) option" where
  "traverse_loop 0 S L to interp w = None"
| "traverse_loop (Suc fuel) S L to interp w =
     (if walk_dist w < delta S + machine_epsilon then Some (Inr (True, walk_stateList w))
      else case loop_body S L to interp w of
             Inl e \<Rightarrow> Some (Inl e)
           | Inr (Break stateList) \<Rightarrow> Some (Inr (False, stateList))
           | Inr (Continue w') \<Rightarrow> traverse_loop fuel S L to interp w')"

text \<open>Lines 66 to 70: with a path collector, empty it and store a copy of \<open>from\<close>.\<close>

definition save_from :: "vec list option \<Rightarrow> vec \<Rightarrow> vec list option" where
  "save_from stateList from =
     (case stateList of None \<Rightarrow> None | Some l \<Rightarrow> push_back (Some []) from)"

text \<open>Lines 84 to 92: the locals before the loop.\<close>

definition initial_walk :: "space \<Rightarrow> vec \<Rightarrow> vec \<Rightarrow> vec list option \<Rightarrow> walk" where
  "initial_walk S from to stateList =
     \<lparr>walk_dist = space_distance S from to, walk_previous = from,
      walk_j = new_matrix (ambient_n (constraint_of S) - manifold_k (constraint_of S))
                 (ambient_n (constraint_of S)),
      walk_stateList = stateList\<rparr>"

text \<open>Lines 59 to 138. The argument \<open>stateList\<close> is \<open>None\<close> for a null pointer and the
  caller's vector otherwise; the result is the returned flag and the vector afterwards.\<close>

definition traverseManifold :: "nat \<Rightarrow> space \<Rightarrow> linalg \<Rightarrow> vec \<Rightarrow> vec \<Rightarrow> bool \<Rightarrow> vec list option \<Rightarrow> (error + bool \<times> vec list option) option" where
  "traverseManifold fuel S L from to interp stateList =
     (let n = validSegmentCount S from to;
          stateList = save_from stateList from
      in if n = 0 then Some (Inr (True, stateList))
         else if \<not> isSatisfied (constraint_of S) from then Some (Inr (False, stateList))
         else
           case traverse_loop fuel S L to interp (initial_walk S from to stateList) of
             None \<Rightarrow> None
           | Some (Inl e) \<Rightarrow> Some (Inl e)
           | Some (Inr (there, stateList)) \<Rightarrow>
               Some (Inr (there, if there then push_back stateList to else stateList)))"

text \<open>The values of the locals at the loop's test, from those before the loop: a run
  reaches the test again whenever a pass ends without \<^verbatim>\<open>break\<close>.\<close>

inductive visits :: "space \<Rightarrow> linalg \<Rightarrow> vec \<Rightarrow> bool \<Rightarrow> walk \<Rightarrow> walk \<Rightarrow> bool"
  for S :: space and L :: linalg and to :: vec and interp :: bool and w0 :: walk where
  start: "visits S L to interp w0 w0"
| pass: "visits S L to interp w0 w \<Longrightarrow> \<not> walk_dist w < delta S + machine_epsilon \<Longrightarrow>
         loop_body S L to interp w = Inr (Continue w') \<Longrightarrow> visits S L to interp w0 w'"

section \<open>The numeric Jacobian as the spec words it\<close>

text \<open>The central difference quotient of \<open>f\<close> in coordinate \<open>j\<close> at \<open>x\<close> with step \<open>d\<close>, from
  the two evaluations at \<open>x \<plusminus> d e\<^sub>j\<close>.\<close>

definition central_difference :: "(vec \<Rightarrow> vec) \<Rightarrow> vec \<Rightarrow> nat \<Rightarrow> real \<Rightarrow> vec" where
  "central_difference f x j d = sdiv (vsub (f (x[j := x ! j + d])) (f (x[j := x ! j - d]))) (2 * d)"

definition stencil_column :: "constraint \<Rightarrow> vec \<Rightarrow> nat \<Rightarrow> vec" where
  "stencil_column C x j =
     (let h = step_size (x ! j);
          m1 = central_difference (func C) x j h;
          m2 = central_difference (func C) x j (2 * h);
          m3 = central_difference (func C) x j (3 * h)
      in vadd (vsub (smult (3 / 2) m1) (smult (3 / 5) m2)) (smult (1 / 10) m3))"

section \<open>Example inputs\<close>

text \<open>A solver for systems of one equation in one unknown: the solution of \<open>a * d = b\<close>, and
  \<open>0\<close> for a vanishing coefficient.\<close>

definition scalar_solve :: "mat \<Rightarrow> vec \<Rightarrow> vec" where
  "scalar_solve J f = (if J ! 0 ! 0 = 0 then [0] else [f ! 0 / J ! 0 ! 0])"

definition scalar_linalg :: linalg where
  "scalar_linalg = \<lparr>qr_solve = scalar_solve, lu_solve = scalar_solve, lu_kernel = (\<lambda>J. [[1]])\<rparr>"

text \<open>The residual \<open>x\<^sup>2 + 1\<close> on the line, with its analytic derivative: it has no zero.\<close>

definition parabola :: "32 word \<Rightarrow> constraint" where
  "parabola maxIter =
     \<lparr>ambient_n = 1, manifold_k = 0, projectionTolerance = 1 / 2,
      projectionMaxIterations = maxIter,
      func = (\<lambda>x. [x ! 0 * x ! 0 + 1]),
      jacobian_override = Some (\<lambda>x out. [[2 * x ! 0]])\<rparr>"

text \<open>The residual \<open>x\<close> on the line: the manifold is the origin.\<close>

definition origin_constraint :: constraint where
  "origin_constraint =
     \<lparr>ambient_n = 1, manifold_k = 0, projectionTolerance = 1 / 2, projectionMaxIterations = 50,
      func = (\<lambda>x. [x ! 0]), jacobian_override = None\<rparr>"

text \<open>The line without constraint (\<open>k = n = 1\<close>, no residual). The Jacobian has no row,
  every system has the solution \<open>0\<close>, and \<open>1\<close> spans the null space.\<close>

definition free_line :: constraint where
  "free_line =
     \<lparr>ambient_n = 1, manifold_k = 1, projectionTolerance = 1 / 2, projectionMaxIterations = 50,
      func = (\<lambda>x. []), jacobian_override = None\<rparr>"

definition line_linalg :: linalg where
  "line_linalg = \<lparr>qr_solve = (\<lambda>J f. [0]), lu_solve = (\<lambda>J f. [0]), lu_kernel = (\<lambda>J. [[1]])\<rparr>"

text \<open>The same with the basis vector \<open>- 1\<close> of the null space.\<close>

definition mirror_linalg :: linalg where
  "mirror_linalg = \<lparr>qr_solve = (\<lambda>J f. [0]), lu_solve = (\<lambda>J f. [0]), lu_kernel = (\<lambda>J. [[- 1]])\<rparr>"

definition line_space :: space where
  "line_space =
     \<lparr>constraint_of = free_line, delta = 1 / 4,
      validSegmentCount = (\<lambda>a b. if a = b then 0 else 4),
      space_distance = (\<lambda>a b. \<bar>a ! 0 - b ! 0\<bar>),
      isValid = (\<lambda>x. True)\<rparr>"

text \<open>
  The plane constrained to the axis \<open>x\<^sub>0 = 0\<close>: the residual is the first coordinate, the
  Jacobian is the row \<open>(1 0)\<close> everywhere. For this matrix, \<open>axis_linalg\<close> gives the
  solution \<open>(f, 0)\<close> of \<open>J d = f\<close> and the basis \<open>(0, 1)\<close> of the null space, a matrix of
  two rows and one column.
\<close>

definition axis_constraint :: constraint where
  "axis_constraint =
     \<lparr>ambient_n = 2, manifold_k = 1, projectionTolerance = 1 / 2, projectionMaxIterations = 50,
      func = (\<lambda>x. [x ! 0]), jacobian_override = None\<rparr>"

definition axis_linalg :: linalg where
  "axis_linalg =
     \<lparr>qr_solve = (\<lambda>J f. [f ! 0, 0]), lu_solve = (\<lambda>J f. [f ! 0, 0]), lu_kernel = (\<lambda>J. [[0, 1]])\<rparr>"

definition euclidean_distance :: "vec \<Rightarrow> vec \<Rightarrow> real" where
  "euclidean_distance a b = vnorm (vsub a b)"

definition plane_space :: space where
  "plane_space =
     \<lparr>constraint_of = axis_constraint, delta = 1 / 4,
      validSegmentCount = (\<lambda>a b. if a = b then 0 else 4),
      space_distance = euclidean_distance,
      isValid = (\<lambda>x. True)\<rparr>"

text \<open>A space information object whose state space is a \<^verbatim>\<open>NullspaceStateSpace\<close>, and one
  over a plain \<^verbatim>\<open>RealVectorStateSpace\<close>.\<close>

definition nullspace_si :: SpaceInformation where
  "nullspace_si =
     \<lparr>getStateSpace = Some \<lparr>class_names =
        [''NullspaceStateSpace'', ''ConstrainedStateSpace'', ''RealVectorStateSpace'', ''StateSpace'']\<rparr>\<rparr>"

definition real_vector_si :: SpaceInformation where
  "real_vector_si =
     \<lparr>getStateSpace = Some \<lparr>class_names = [''RealVectorStateSpace'', ''StateSpace'']\<rparr>\<rparr>"

section \<open>Newton projection\<close>

lemmas [simp del] = project_loop.simps

lemma project_loop_satisfied:
  "\<not> vnorm (fst (snd s)) > projectionTolerance C \<Longrightarrow> project_loop C L iter s = (iter, s)"
  by (subst project_loop.simps) simp

lemma project_loop_exhausted:
  "vnorm (fst (snd s)) > projectionTolerance C \<Longrightarrow> \<not> iter < projectionMaxIterations C \<Longrightarrow>
   project_loop C L iter s = (iter + 1, s)"
  by (subst project_loop.simps) simp

lemma project_loop_update:
  "vnorm (fst (snd s)) > projectionTolerance C \<Longrightarrow> iter < projectionMaxIterations C \<Longrightarrow>
   project_loop C L iter s = project_loop C L (iter + 1) (newton_update C L s)"
  by (subst project_loop.simps) simp

lemma vnorm_single: "vnorm [a] = \<bar>a\<bar>"
  by (simp add: vnorm_def)

text \<open>
  C8. Projection is idempotent: for every point \<open>x\<close> with
  \<open>distance x \<le> projectionTolerance\<close>, \<^verbatim>\<open>project(x)\<close> returns true and leaves \<open>x\<close> as it
  was; no Newton update is applied.
\<close>

theorem project_idempotent:
  "distance C x \<le> projectionTolerance C \<Longrightarrow> project C L x = (True, x)"
  by (simp add: project_def distance_def Let_def project_loop_satisfied)

theorem project_idempotent_witness:
  "distance origin_constraint [1 / 4] \<le> projectionTolerance origin_constraint
   \<and> project origin_constraint scalar_linalg [1 / 4] = (True, [1 / 4])"
proof -
  have h: "distance origin_constraint [1 / 4] \<le> projectionTolerance origin_constraint"
    by (simp add: distance_def origin_constraint_def vnorm_single)
  show ?thesis
    using h project_idempotent [OF h, of scalar_linalg] by simp
qed

text \<open>The counter does not wrap while it is below the budget.\<close>

lemma word_less_Suc:
  fixes i m :: "32 word"
  assumes "i < m"
  shows "unat (i + 1) = Suc (unat i)"
proof -
  from assms have "unat i < unat m"
    by (simp add: word_less_nat_alt)
  moreover have "unat m < 2 ^ 32"
    using unsigned_less [of m, where ?'a = nat] by simp
  ultimately have "unat i + 1 < 2 ^ 32"
    by simp
  then show ?thesis
    by (simp add: unat_word_ariths)
qed

text \<open>
  A run whose residual stays above the tolerance: the loop applies the update until the
  counter equals the budget, and leaves with the counter one past the budget, in
  \<^verbatim>\<open>unsigned int\<close> arithmetic.
\<close>

lemma project_loop_never:
  assumes "\<forall>k \<le> unat (projectionMaxIterations C) - unat iter.
             vnorm (fst (snd ((newton_update C L ^^ k) s))) > projectionTolerance C"
    and "iter \<le> projectionMaxIterations C"
  shows "project_loop C L iter s =
           (projectionMaxIterations C + 1,
            (newton_update C L ^^ (unat (projectionMaxIterations C) - unat iter)) s)"
  using assms
proof (induction "unat (projectionMaxIterations C) - unat iter" arbitrary: iter s)
  case 0
  then have "unat (projectionMaxIterations C) \<le> unat iter" by simp
  with "0.prems"(2) have eq: "iter = projectionMaxIterations C"
    by (simp add: word_le_nat_alt word_unat_eq_iff)
  from "0.prems"(1) have "vnorm (fst (snd s)) > projectionTolerance C"
    by (metis funpow_0 le0)
  with eq show ?case
    by (simp add: project_loop_exhausted)
next
  case (Suc d)
  then have lt: "iter < projectionMaxIterations C"
    by (simp add: word_less_nat_alt)
  have suc: "unat (iter + 1) = Suc (unat iter)"
    using lt by (rule word_less_Suc)
  have d: "d = unat (projectionMaxIterations C) - unat (iter + 1)"
    using Suc.hyps(2) suc by simp
  have le: "iter + 1 \<le> projectionMaxIterations C"
    using lt suc by (simp add: word_le_nat_alt word_less_nat_alt)
  have res0: "vnorm (fst (snd s)) > projectionTolerance C"
    using Suc.prems(1) by (metis funpow_0 le0)
  have "\<forall>k \<le> unat (projectionMaxIterations C) - unat (iter + 1).
          vnorm (fst (snd ((newton_update C L ^^ k) (newton_update C L s)))) > projectionTolerance C"
  proof (intro allI impI)
    fix k assume "k \<le> unat (projectionMaxIterations C) - unat (iter + 1)"
    then have "Suc k \<le> unat (projectionMaxIterations C) - unat iter"
      using Suc.hyps(2) d by simp
    with Suc.prems(1) have "vnorm (fst (snd ((newton_update C L ^^ Suc k) s))) > projectionTolerance C"
      by blast
    then show "vnorm (fst (snd ((newton_update C L ^^ k) (newton_update C L s)))) > projectionTolerance C"
      by (simp add: funpow_swap1)
  qed
  from Suc.hyps(1) [OF d this le]
  have "project_loop C L (iter + 1) (newton_update C L s) =
          (projectionMaxIterations C + 1,
           (newton_update C L ^^ (unat (projectionMaxIterations C) - unat (iter + 1))) (newton_update C L s))" .
  moreover have "(newton_update C L ^^ (unat (projectionMaxIterations C) - unat (iter + 1))) (newton_update C L s)
      = (newton_update C L ^^ (unat (projectionMaxIterations C) - unat iter)) s"
    using Suc.hyps(2) d by (metis funpow_Suc_right o_apply)
  ultimately show ?case
    using res0 lt by (simp add: project_loop_update)
qed

text \<open>
  A run that meets the tolerance after \<open>k\<close> updates, and not before, within the budget:
  the loop applies \<open>k\<close> updates and leaves with the counter at \<open>iter + k\<close>.
\<close>

lemma project_loop_meets:
  assumes "\<not> vnorm (fst (snd ((newton_update C L ^^ k) s))) > projectionTolerance C"
    and "\<forall>i < k. vnorm (fst (snd ((newton_update C L ^^ i) s))) > projectionTolerance C"
    and "unat iter + k \<le> unat (projectionMaxIterations C)"
  shows "project_loop C L iter s = (iter + of_nat k, (newton_update C L ^^ k) s)"
  using assms
proof (induction k arbitrary: iter s)
  case 0
  then show ?case
    by (simp add: project_loop_satisfied)
next
  case (Suc k)
  from Suc.prems(3) have lt: "iter < projectionMaxIterations C"
    using order_less_le word_le_nat_alt by fastforce
  have suc: "unat (iter + 1) = Suc (unat iter)"
    using lt by (rule word_less_Suc)
  from Suc.prems(2) have res0: "vnorm (fst (snd s)) > projectionTolerance C"
    by (metis funpow_0 zero_less_Suc)
  have a: "\<not> vnorm (fst (snd ((newton_update C L ^^ k) (newton_update C L s)))) > projectionTolerance C"
    using Suc.prems(1) by (simp add: funpow_swap1)
  have b: "\<forall>i < k. vnorm (fst (snd ((newton_update C L ^^ i) (newton_update C L s)))) > projectionTolerance C"
  proof (intro allI impI)
    fix i assume "i < k"
    then have "Suc i < Suc k" by simp
    with Suc.prems(2) have "vnorm (fst (snd ((newton_update C L ^^ Suc i) s))) > projectionTolerance C"
      by blast
    then show "vnorm (fst (snd ((newton_update C L ^^ i) (newton_update C L s)))) > projectionTolerance C"
      by (simp add: funpow_swap1)
  qed
  have c: "unat (iter + 1) + k \<le> unat (projectionMaxIterations C)"
    using Suc.prems(3) suc by simp
  have "project_loop C L (iter + 1) (newton_update C L s)
          = (iter + 1 + of_nat k, (newton_update C L ^^ k) (newton_update C L s))"
    using a b c by (rule Suc.IH)
  then show ?case
    using res0 lt by (simp add: project_loop_update funpow_swap1 add.assoc)
qed

text \<open>
  For every budget below the largest \<^verbatim>\<open>unsigned int\<close>, \<^verbatim>\<open>project\<close> returns true exactly when
  the residual is within the tolerance after some number of updates that the budget allows.
\<close>

lemma project_below_largest_budget:
  assumes "projectionMaxIterations C \<noteq> - 1"
  shows "fst (project C L x) =
           (\<exists>k \<le> unat (projectionMaxIterations C).
              vnorm (fst (snd ((newton_update C L ^^ k)
                (x, func C x, new_matrix (ambient_n C - manifold_k C) (ambient_n C)))))
              \<le> projectionTolerance C)"
proof -
  let ?s = "(x, func C x, new_matrix (ambient_n C - manifold_k C) (ambient_n C))"
  let ?met = "\<lambda>k. vnorm (fst (snd ((newton_update C L ^^ k) ?s))) \<le> projectionTolerance C"
  show ?thesis
  proof (cases "\<exists>k \<le> unat (projectionMaxIterations C). ?met k")
    case True
    then obtain k where k: "k \<le> unat (projectionMaxIterations C)" "?met k"
      by blast
    define k0 where "k0 = (LEAST k. ?met k)"
    have met: "?met k0"
      unfolding k0_def using k(2) by (rule LeastI)
    have le: "k0 \<le> k"
      unfolding k0_def using k(2) by (rule Least_le)
    have before: "\<forall>i < k0. vnorm (fst (snd ((newton_update C L ^^ i) ?s))) > projectionTolerance C"
      unfolding k0_def using not_less_Least by fastforce
    have "project_loop C L 0 ?s = (0 + of_nat k0, (newton_update C L ^^ k0) ?s)"
      using met before le k(1) by (intro project_loop_meets) simp_all
    moreover have "k0 \<le> unat (projectionMaxIterations C)"
      using le k(1) by simp
    then have "(of_nat k0 :: 32 word) \<le> projectionMaxIterations C"
      by (simp add: le_unat_uoi word_le_nat_alt)
    ultimately have "fst (project C L x)"
      by (simp add: project_def Let_def)
    with True show ?thesis by simp
  next
    case False
    then have "\<forall>k \<le> unat (projectionMaxIterations C).
        vnorm (fst (snd ((newton_update C L ^^ k) ?s))) > projectionTolerance C"
      using not_le by blast
    then have "\<forall>k \<le> unat (projectionMaxIterations C) - unat (0 :: 32 word).
        vnorm (fst (snd ((newton_update C L ^^ k) ?s))) > projectionTolerance C"
      by simp
    then have "fst (project_loop C L 0 ?s) = projectionMaxIterations C + 1"
      by (simp add: project_loop_never)
    moreover have "\<not> projectionMaxIterations C + 1 \<le> projectionMaxIterations C"
      using assms by (metis inc_less_eq_triv_imp)
    ultimately have "\<not> fst (project C L x)"
      by (simp add: project_def Let_def)
    with False show ?thesis by simp
  qed
qed

lemma newton_update_residual:
  "fst (snd (newton_update C L s)) = func C (fst (newton_update C L s))"
  by (simp add: newton_update_def Let_def split: prod.splits)

lemma iterate_residual:
  "fst (snd ((newton_update C L ^^ k) (x, func C x, j))) =
     func C (fst ((newton_update C L ^^ k) (x, func C x, j)))"
  by (cases k) (simp_all add: newton_update_residual)

lemma parabola_residual: "vnorm (func (parabola m) y) > projectionTolerance (parabola m)"
proof -
  have "0 \<le> y ! 0 * y ! 0" by simp
  then have "1 / 2 < \<bar>y ! 0 * y ! 0 + 1\<bar>" by linarith
  then show ?thesis by (simp add: parabola_def vnorm_single)
qed

text \<open>
  C3. \<^verbatim>\<open>project(x)\<close> returns true if and only if the Newton loop reached
  \<open>\<parallel>f(x)\<parallel> \<le> projectionTolerance\<close> within the budget of iterations, and for an input whose
  residual never meets the tolerance it returns false after exactly
  \<open>projectionMaxIterations\<close> updates. With the largest budget an \<^verbatim>\<open>unsigned int\<close> holds the
  code does otherwise: after \<open>2\<^sup>3\<^sup>2 - 1\<close> updates the last \<^verbatim>\<open>iter++\<close> wraps the counter to
  \<open>0\<close>, and \<^verbatim>\<open>iter <= projectionMaxIterations_\<close> is true, for a residual that no point
  brings within the tolerance.
\<close>

theorem project_budget_wraps:
  "fst (project (parabola 4294967295) scalar_linalg [1])
   \<and> snd (project (parabola 4294967295) scalar_linalg [1]) =
       fst ((newton_update (parabola 4294967295) scalar_linalg ^^ 4294967295)
              ([1], func (parabola 4294967295) [1], new_matrix 1 1))
   \<and> (\<forall>y. distance (parabola 4294967295) y > projectionTolerance (parabola 4294967295))"
proof -
  let ?C = "parabola 4294967295"
  let ?s = "([1], func ?C [1], new_matrix (ambient_n ?C - manifold_k ?C) (ambient_n ?C))"
  have max: "projectionMaxIterations ?C = - 1"
    by (simp add: parabola_def)
  have shape: "new_matrix (ambient_n ?C - manifold_k ?C) (ambient_n ?C) = new_matrix 1 1"
    by (simp add: parabola_def)
  have count: "unat (projectionMaxIterations ?C) - unat (0 :: 32 word) = 4294967295"
    by (simp add: parabola_def)
  have "\<forall>k \<le> unat (projectionMaxIterations ?C) - unat (0 :: 32 word).
          vnorm (fst (snd ((newton_update ?C scalar_linalg ^^ k) ?s))) > projectionTolerance ?C"
    by (simp only: iterate_residual parabola_residual) simp
  moreover have "(0 :: 32 word) \<le> projectionMaxIterations ?C"
    by simp
  ultimately have "project_loop ?C scalar_linalg 0 ?s =
      (projectionMaxIterations ?C + 1,
       (newton_update ?C scalar_linalg ^^ (unat (projectionMaxIterations ?C) - unat (0 :: 32 word))) ?s)"
    by (rule project_loop_never)
  then have loop: "project_loop ?C scalar_linalg 0 ?s =
      (0, (newton_update ?C scalar_linalg ^^ 4294967295) ?s)"
    by (simp only: count) (simp only: max, simp)
  have "fst (project ?C scalar_linalg [1])"
    by (simp add: project_def Let_def loop)
  moreover have "snd (project ?C scalar_linalg [1]) =
       fst ((newton_update ?C scalar_linalg ^^ 4294967295) ?s)"
    by (simp only: project_def Let_def loop fst_conv snd_conv)
  then have "snd (project ?C scalar_linalg [1]) =
       fst ((newton_update ?C scalar_linalg ^^ 4294967295) ([1], func ?C [1], new_matrix 1 1))"
    by (simp only: shape)
  moreover have "\<forall>y. distance ?C y > projectionTolerance ?C"
    by (simp only: distance_def parabola_residual) simp
  ultimately show ?thesis
    by blast
qed

text \<open>
  C10. A failed projection is not atomic: for some constraint and input, \<^verbatim>\<open>project(x)\<close>
  returns false and \<open>x\<close> differs from the input; it holds the result of the
  \<open>projectionMaxIterations\<close> Newton updates.
\<close>

theorem project_not_atomic:
  "\<exists>C L x. \<not> fst (project C L x) \<and> snd (project C L x) \<noteq> x
     \<and> snd (project C L x) =
         fst ((newton_update C L ^^ unat (projectionMaxIterations C))
                (x, func C x, new_matrix (ambient_n C - manifold_k C) (ambient_n C)))"
proof -
  let ?C = "parabola 1"
  let ?s = "([1], func ?C [1], new_matrix (ambient_n ?C - manifold_k ?C) (ambient_n ?C))"
  have up: "newton_update ?C scalar_linalg ?s = ([0], [1], [[2]])"
    by (simp add: newton_update_def jacobian_def parabola_def scalar_linalg_def scalar_solve_def vsub_def)
  have "project_loop ?C scalar_linalg 0 ?s =
          project_loop ?C scalar_linalg (0 + 1) (newton_update ?C scalar_linalg ?s)"
    by (rule project_loop_update) (simp_all add: parabola_def vnorm_single)
  also have "\<dots> = (2, [0], [1], [[2]])"
    by (simp only: up) (simp add: project_loop_exhausted parabola_def vnorm_single)
  finally have loop: "project_loop ?C scalar_linalg 0 ?s = (2, [0], [1], [[2]])" .
  have "project ?C scalar_linalg [1] = (False, [0])"
    by (simp add: project_def Let_def loop) (simp add: parabola_def word_le_nat_alt)
  moreover have "unat (projectionMaxIterations ?C) = 1"
    by (simp add: parabola_def)
  ultimately have "\<not> fst (project ?C scalar_linalg [1]) \<and> snd (project ?C scalar_linalg [1]) \<noteq> [1]
     \<and> snd (project ?C scalar_linalg [1]) =
         fst ((newton_update ?C scalar_linalg ^^ unat (projectionMaxIterations ?C)) ?s)"
    by (simp add: up)
  then show ?thesis by blast
qed

section \<open>The numeric Jacobian\<close>

lemma sqrt_machine_epsilon: "sqrt machine_epsilon = 1 / 2 ^ 26"
  by (simp add: machine_epsilon_def real_sqrt_divide)

text \<open>
  One pass of the loop over the columns, entered with \<open>y1 = y2 = x\<close>: it writes column \<open>j\<close>
  and leaves \<open>y1\<close> and \<open>y2\<close> equal to \<open>x\<close> again.
\<close>

lemma jacobian_column_at_x:
  assumes "j < length x"
  shows "jacobian_column C x j (x, x, out) = (x, x, out[j := stencil_column C x j])"
proof -
  have a: "x ! j + step_size (x ! j) + step_size (x ! j) = x ! j + 2 * step_size (x ! j)"
    by simp
  have b: "x ! j - step_size (x ! j) - step_size (x ! j) = x ! j - 2 * step_size (x ! j)"
    by simp
  have c: "x ! j + 2 * step_size (x ! j) + step_size (x ! j) = x ! j + 3 * step_size (x ! j)"
    by simp
  have d: "x ! j - 2 * step_size (x ! j) - step_size (x ! j) = x ! j - 3 * step_size (x ! j)"
    by simp
  have e: "x ! j + step_size (x ! j) - (x ! j - step_size (x ! j)) = 2 * step_size (x ! j)"
    "x ! j + 2 * step_size (x ! j) - (x ! j - 2 * step_size (x ! j)) = 2 * (2 * step_size (x ! j))"
    "x ! j + 3 * step_size (x ! j) - (x ! j - 3 * step_size (x ! j)) = 2 * (3 * step_size (x ! j))"
    by simp_all
  show ?thesis
    using assms
    by (simp add: jacobian_column_def stencil_column_def central_difference_def Let_def a b c d e)
qed

lemma jacobian_fold:
  assumes "i \<le> length x"
  shows "\<exists>out'. foldl (\<lambda>s j. jacobian_column C x j s) (x, x, out) [0..<i] = (x, x, out')
           \<and> length out' = length out
           \<and> (\<forall>j < i. j < length out \<longrightarrow> out' ! j = stencil_column C x j)"
  using assms
proof (induction i)
  case 0
  then show ?case by simp
next
  case (Suc i)
  then obtain out' where run: "foldl (\<lambda>s j. jacobian_column C x j s) (x, x, out) [0..<i] = (x, x, out')"
    and len: "length out' = length out"
    and cols: "\<forall>j < i. j < length out \<longrightarrow> out' ! j = stencil_column C x j"
    by auto
  from Suc.prems have "i < length x" by simp
  then have "foldl (\<lambda>s j. jacobian_column C x j s) (x, x, out) [0..<Suc i]
      = (x, x, out'[i := stencil_column C x i])"
    by (simp add: run jacobian_column_at_x)
  moreover have "\<forall>j < Suc i. j < length out \<longrightarrow> out'[i := stencil_column C x i] ! j = stencil_column C x j"
    using cols len by (auto simp: nth_list_update less_Suc_eq)
  ultimately show ?case
    using len by simp
qed

text \<open>
  C7. Each column \<open>j\<close> of the default numeric Jacobian is \<open>1.5 m1 - 0.6 m2 + 0.1 m3\<close>,
  where \<open>m1\<close>, \<open>m2\<close>, \<open>m3\<close> are the central difference quotients of \<^verbatim>\<open>function\<close> in
  coordinate \<open>j\<close> at the steps \<open>h\<close>, \<open>2h\<close> and \<open>3h\<close>, from the six evaluations at
  \<open>x \<plusminus> h e\<^sub>j\<close>, \<open>x \<plusminus> 2h e\<^sub>j\<close> and \<open>x \<plusminus> 3h e\<^sub>j\<close>. Here \<open>x\<close> has \<open>n\<close> coordinates and \<open>out\<close> has
  \<open>n\<close> columns, and \<open>h\<close> is the step of line 76.
\<close>

theorem jacobian_numeric_column:
  assumes "length x = ambient_n C" and "length out = ambient_n C" and "j < ambient_n C"
  shows "jacobian_numeric C x out ! j =
           vadd (vsub (smult (3 / 2) (central_difference (func C) x j (step_size (x ! j))))
                      (smult (3 / 5) (central_difference (func C) x j (2 * step_size (x ! j)))))
                (smult (1 / 10) (central_difference (func C) x j (3 * step_size (x ! j))))"
proof -
  from assms(1) have "ambient_n C \<le> length x" by simp
  from jacobian_fold [OF this, of C out] assms(2,3)
  have "jacobian_numeric C x out ! j = stencil_column C x j"
    by (auto simp: jacobian_numeric_def)
  then show ?thesis
    by (simp add: stencil_column_def Let_def)
qed

theorem jacobian_numeric_column_witness:
  "length [2 :: real] = ambient_n origin_constraint
   \<and> length [[0 :: real]] = ambient_n origin_constraint
   \<and> 0 < ambient_n origin_constraint
   \<and> central_difference (func origin_constraint) [2] 0 (step_size 2) = [1]
   \<and> central_difference (func origin_constraint) [2] 0 (2 * step_size 2) = [1]
   \<and> central_difference (func origin_constraint) [2] 0 (3 * step_size 2) = [1]
   \<and> jacobian_numeric origin_constraint [2] [[0]] ! 0 = [1]"
proof -
  have a: "length [2 :: real] = ambient_n origin_constraint"
    and b: "length [[0 :: real]] = ambient_n origin_constraint"
    and c: "0 < ambient_n origin_constraint"
    by (simp_all add: origin_constraint_def)
  have h: "step_size 2 = 2 / 2 ^ 26"
    by (simp add: step_size_def sqrt_machine_epsilon)
  have m: "central_difference (func origin_constraint) [2] 0 (step_size 2) = [1]"
    "central_difference (func origin_constraint) [2] 0 (2 * step_size 2) = [1]"
    "central_difference (func origin_constraint) [2] 0 (3 * step_size 2) = [1]"
    by (simp_all add: central_difference_def origin_constraint_def h vsub_def sdiv_def)
  have "jacobian_numeric origin_constraint [2] [[0]] ! 0 = [1]"
    using jacobian_numeric_column [OF a b c] by (simp add: m vadd_def vsub_def smult_def)
  with a b c m show ?thesis
    by simp
qed

text \<open>
  The step of line 76 is \<open>sqrt \<epsilon> * max x\<^sub>j 1\<close>: the coordinate enters with its sign.
\<close>

lemma step_size_max: "step_size xj = sqrt machine_epsilon * max xj 1"
  by (simp add: step_size_def max_def)

text \<open>
  C4. In the default numeric Jacobian the step for column \<open>j\<close> is
  \<open>h = sqrt \<epsilon> * max \<bar>x\<^sub>j\<bar> 1\<close> for every real \<open>x\<^sub>j\<close>, negative coordinates included. The code
  scales the step by \<open>x\<^sub>j\<close> only when \<open>x\<^sub>j \<ge> 1\<close>: at \<open>x\<^sub>j = - 2\<close> the step is \<open>sqrt \<epsilon>\<close>,
  and the claim's is \<open>2 * sqrt \<epsilon>\<close>.
\<close>

theorem step_size_negative_coordinate:
  "step_size (- 2) = sqrt machine_epsilon
   \<and> sqrt machine_epsilon * max (abs (- 2)) 1 = 2 * sqrt machine_epsilon
   \<and> step_size (- 2) \<noteq> sqrt machine_epsilon * max (abs (- 2)) 1"
  by (simp add: step_size_def sqrt_machine_epsilon)

section \<open>The check of the space\<close>

text \<open>
  C9. \<^verbatim>\<open>checkSpace(si)\<close> raises its exception if and only if the state space of \<open>si\<close> is
  not a \<^verbatim>\<open>NullspaceStateSpace\<close>; for a compatible space it returns normally, with no
  effect.
\<close>

theorem checkSpace_throws_iff:
  "(checkSpace si = Inl (Exception ''ompl::base::NullspaceStateSpace(): si needs to use an NullspaceStateSpace!''))
     = (\<not> (\<exists>obj. getStateSpace si = Some obj \<and> ''NullspaceStateSpace'' \<in> set (class_names obj)))
   \<and> (checkSpace si = Inr ())
     = (\<exists>obj. getStateSpace si = Some obj \<and> ''NullspaceStateSpace'' \<in> set (class_names obj))"
  by (auto simp: checkSpace_def dynamic_cast_def split: option.splits)

theorem checkSpace_throws_iff_witness:
  "checkSpace nullspace_si = Inr ()
   \<and> checkSpace real_vector_si =
       Inl (Exception ''ompl::base::NullspaceStateSpace(): si needs to use an NullspaceStateSpace!'')
   \<and> checkSpace \<lparr>getStateSpace = None\<rparr> =
       Inl (Exception ''ompl::base::NullspaceStateSpace(): si needs to use an NullspaceStateSpace!'')"
  using checkSpace_throws_iff [of nullspace_si] checkSpace_throws_iff [of real_vector_si]
    checkSpace_throws_iff [of "\<lparr>getStateSpace = None\<rparr>"]
  by (simp add: nullspace_si_def real_vector_si_def)

section \<open>Manifold traversal\<close>

text \<open>
  What one pass of the loop body does when it ends without \<^verbatim>\<open>break\<close>, and the two ways
  it ends with one on a corrected point.
\<close>

lemma loop_body_Continue:
  assumes "loop_body S L to interp w = Inr (Continue w')"
  shows "\<exists>c. corrected_point L (jacobian (constraint_of S) (walk_previous w) (walk_j w))
               (func (constraint_of S) (walk_previous w)) (walk_previous w)
               (interpolate (walk_previous w) to (delta S / walk_dist w)) = Some c
           \<and> walk_previous w' = c
           \<and> walk_dist w' = space_distance S c to
           \<and> space_distance S c to < walk_dist w
           \<and> walk_stateList w' = push_back (walk_stateList w) c"
  using assms
  by (auto simp: loop_body_def Let_def split: option.splits if_splits)

lemma loop_body_Break:
  assumes "loop_body S L to interp w = Inr (Break sl)"
  shows "sl = walk_stateList w
         \<or> (\<exists>c. sl = push_back (walk_stateList w) c \<and> space_distance S c to \<ge> walk_dist w)"
  using assms
  by (auto simp: loop_body_def Let_def split: option.splits if_splits)

lemma loop_body_diverged:
  assumes "corrected_point L (jacobian (constraint_of S) (walk_previous w) (walk_j w))
               (func (constraint_of S) (walk_previous w)) (walk_previous w)
               (interpolate (walk_previous w) to (delta S / walk_dist w)) = Some c"
    and "space_distance S c to \<ge> walk_dist w"
  shows "\<exists>sl. loop_body S L to interp w = Inr (Break sl)"
  using assms
  by (auto simp: loop_body_def Let_def)

text \<open>
  At every test of the loop, \<open>dist\<close> is the distance from \<open>previous\<close> to the target.
\<close>

lemma visits_dist:
  assumes "visits S L to interp w0 w"
    and "walk_dist w0 = space_distance S (walk_previous w0) to"
  shows "walk_dist w = space_distance S (walk_previous w) to"
  using assms
proof (induction rule: visits.induct)
  case start
  then show ?case by simp
next
  case (pass w w')
  from loop_body_Continue [OF pass.hyps(3)] show ?case by auto
qed

lemma initial_walk_dist:
  "walk_dist (initial_walk S from to sl) = space_distance S (walk_previous (initial_walk S from to sl)) to"
  by (simp add: initial_walk_def)

text \<open>
  A run from the first test of the loop continues, after some passes, as the run from
  any test it visits.
\<close>

lemma visits_fuel:
  assumes "visits S L to interp w0 w"
  shows "\<exists>k. \<forall>fuel. traverse_loop (k + fuel) S L to interp w0 = traverse_loop fuel S L to interp w"
  using assms
proof (induction rule: visits.induct)
  case start
  have "\<forall>fuel. traverse_loop (0 + fuel) S L to interp w0 = traverse_loop fuel S L to interp w0"
    by simp
  then show ?case by blast
next
  case (pass w w')
  then obtain k where k: "\<forall>fuel. traverse_loop (k + fuel) S L to interp w0 = traverse_loop fuel S L to interp w"
    by blast
  have "\<forall>fuel. traverse_loop (Suc k + fuel) S L to interp w0 = traverse_loop fuel S L to interp w'"
  proof
    fix fuel
    have "traverse_loop (Suc k + fuel) S L to interp w0 = traverse_loop (Suc fuel) S L to interp w"
      using k [rule_format, of "Suc fuel"] by simp
    also have "\<dots> = traverse_loop fuel S L to interp w'"
      using pass.hyps(2,3) by simp
    finally show "traverse_loop (Suc k + fuel) S L to interp w0 = traverse_loop fuel S L to interp w'" .
  qed
  then show ?case by blast
qed

text \<open>
  C2. If \<open>from\<close> fails \<^verbatim>\<open>isSatisfied\<close> and the step count is not zero,
  \<^verbatim>\<open>traverseManifold\<close> returns false, with or without a path collector. As amended: the
  path collector, when supplied, then holds one state, the copy of \<open>from\<close> that lines 66
  to 70 store before the test of line 75, whatever it held before; a null collector stays
  null.
\<close>

theorem unsatisfied_start:
  assumes "\<not> isSatisfied (constraint_of S) from" and "validSegmentCount S from to \<noteq> 0"
  shows "traverseManifold fuel S L from to interp stateList = Some (Inr (False, save_from stateList from))
       \<and> save_from (Some l) from = Some [from]
       \<and> save_from None from = None"
  using assms by (simp add: traverseManifold_def save_from_def push_back_def)

theorem unsatisfied_start_witness:
  "\<not> isSatisfied (constraint_of plane_space) [1, 0]
   \<and> validSegmentCount plane_space [1, 0] [0, 1] \<noteq> 0
   \<and> traverseManifold 0 plane_space axis_linalg [1, 0] [0, 1] False (Some [[5, 5]])
       = Some (Inr (False, Some [[1, 0]]))
   \<and> traverseManifold 0 plane_space axis_linalg [1, 0] [0, 1] False None
       = Some (Inr (False, None))"
proof -
  have a: "\<not> isSatisfied (constraint_of plane_space) [1, 0]"
    by (simp add: isSatisfied_def distance_def plane_space_def axis_constraint_def vnorm_single)
  have b: "validSegmentCount plane_space [1, 0] [0, 1] \<noteq> 0"
    by (simp add: plane_space_def)
  show ?thesis
    using a b unsatisfied_start [OF a b, of 0 axis_linalg False "Some [[5, 5]]" "[[5, 5]]"]
      unsatisfied_start [OF a b, of 0 axis_linalg False None "[]"]
    by simp
qed

text \<open>
  C2 as stated, with the path collector left empty, fails on the plane constrained to
  the axis for a start point off the axis: the collector holds the start point.
\<close>

theorem unsatisfied_start_path_not_empty:
  "\<not> isSatisfied (constraint_of plane_space) [2, 0]
   \<and> validSegmentCount plane_space [2, 0] [0, 1] \<noteq> 0
   \<and> traverseManifold 3 plane_space axis_linalg [2, 0] [0, 1] True (Some [])
       = Some (Inr (False, Some [[2, 0]]))
   \<and> [[2, 0 :: real]] \<noteq> []"
  by (simp add: traverseManifold_def isSatisfied_def distance_def plane_space_def axis_constraint_def
      vnorm_single save_from_def push_back_def)

lemma free_line_jacobian: "jacobian free_line x [[]] = [[]]"
  by (simp add: jacobian_def jacobian_numeric_def free_line_def jacobian_column_def
      vsub_def vadd_def smult_def sdiv_def Let_def)

lemma line_satisfied: "isSatisfied (constraint_of line_space) x"
  by (simp add: isSatisfied_def allFinite_def distance_def line_space_def free_line_def vnorm_def)

lemma line_walk_start:
  "initial_walk line_space [0] [1 / 2] (save_from (Some []) [0])
     = \<lparr>walk_dist = 1 / 2, walk_previous = [0], walk_j = [[]], walk_stateList = Some [[0]]\<rparr>"
  by (simp add: initial_walk_def save_from_def push_back_def line_space_def free_line_def new_matrix_def)

lemma line_walk_pass:
  "loop_body line_space line_linalg [1 / 2] interp
       \<lparr>walk_dist = 1 / 2, walk_previous = [0], walk_j = [[]], walk_stateList = Some [[0]]\<rparr>
     = Inr (Continue \<lparr>walk_dist = 1 / 4, walk_previous = [1 / 4], walk_j = [[]],
                      walk_stateList = Some [[0], [1 / 4]]\<rparr>)"
proof -
  have cp: "corrected_point line_linalg [[]] [] [0] [1 / 4] = Some [1 / 4]"
    by (simp add: corrected_point_def matrix_product_def rowwise_reverse_def line_linalg_def
        mat_rows_def vsub_def vadd_def smult_def)
  have fl: "func free_line [0] = []"
    by (simp add: free_line_def)
  show ?thesis
    by (simp add: loop_body_def Let_def free_line_jacobian fl cp push_back_def interpolate_def
        line_space_def)
qed

lemma mirror_walk_corrected:
  "corrected_point mirror_linalg [[]] [] [0] [1 / 4] = Some [- (1 / 4)]"
  by (simp add: corrected_point_def matrix_product_def rowwise_reverse_def mirror_linalg_def
      mat_rows_def vsub_def vadd_def smult_def)

text \<open>
  C5. Monotonic progress: every point accepted as the new \<open>previous\<close> is strictly closer
  to the target than the point accepted before it; and if the distance from a corrected
  point to the target is at least the current distance, the walk stops in that pass and
  the returned flag is false. The statement is about every test of the loop that a run of
  \<^verbatim>\<open>traverseManifold\<close> reaches with the loop still running.
\<close>

theorem monotonic_progress:
  assumes "validSegmentCount S from to \<noteq> 0"
    and "isSatisfied (constraint_of S) from"
    and "visits S L to interp (initial_walk S from to (save_from stateList from)) w"
    and "\<not> walk_dist w < delta S + machine_epsilon"
  shows "(\<forall>w'. loop_body S L to interp w = Inr (Continue w') \<longrightarrow>
            space_distance S (walk_previous w') to < space_distance S (walk_previous w) to)
       \<and> (\<forall>c. corrected_point L (jacobian (constraint_of S) (walk_previous w) (walk_j w))
                 (func (constraint_of S) (walk_previous w)) (walk_previous w)
                 (interpolate (walk_previous w) to (delta S / walk_dist w)) = Some c
               \<and> space_distance S c to \<ge> walk_dist w \<longrightarrow>
             (\<exists>k sl. \<forall>fuel.
                traverse_loop (Suc fuel) S L to interp w = Some (Inr (False, sl))
                \<and> traverseManifold (k + Suc fuel) S L from to interp stateList = Some (Inr (False, sl))))"
proof (intro conjI allI impI)
  fix w'
  assume c: "loop_body S L to interp w = Inr (Continue w')"
  have "walk_dist w = space_distance S (walk_previous w) to"
    using assms(3) initial_walk_dist by (rule visits_dist)
  with loop_body_Continue [OF c]
  show "space_distance S (walk_previous w') to < space_distance S (walk_previous w) to"
    by auto
next
  fix c
  assume "corrected_point L (jacobian (constraint_of S) (walk_previous w) (walk_j w))
                 (func (constraint_of S) (walk_previous w)) (walk_previous w)
                 (interpolate (walk_previous w) to (delta S / walk_dist w)) = Some c
               \<and> space_distance S c to \<ge> walk_dist w"
  then obtain sl where br: "loop_body S L to interp w = Inr (Break sl)"
    using loop_body_diverged by blast
  have one: "\<forall>fuel. traverse_loop (Suc fuel) S L to interp w = Some (Inr (False, sl))"
    using br assms(4) by simp
  from visits_fuel [OF assms(3)] obtain k where
    k: "\<forall>fuel. traverse_loop (k + fuel) S L to interp (initial_walk S from to (save_from stateList from))
            = traverse_loop fuel S L to interp w"
    by blast
  have "\<forall>fuel. traverse_loop (k + Suc fuel) S L to interp (initial_walk S from to (save_from stateList from))
            = Some (Inr (False, sl))"
    using k one by (simp only:) simp
  then have "\<forall>fuel. traverseManifold (k + Suc fuel) S L from to interp stateList = Some (Inr (False, sl))"
    using assms(1,2) by (simp add: traverseManifold_def Let_def del: traverse_loop.simps add_Suc_right)
  with one show "\<exists>k sl. \<forall>fuel.
          traverse_loop (Suc fuel) S L to interp w = Some (Inr (False, sl))
          \<and> traverseManifold (k + Suc fuel) S L from to interp stateList = Some (Inr (False, sl))"
    by blast
qed

theorem monotonic_progress_witness:
  "validSegmentCount line_space [0] [1 / 2] \<noteq> 0
   \<and> isSatisfied (constraint_of line_space) [0]
   \<and> visits line_space line_linalg [1 / 2] True
        (initial_walk line_space [0] [1 / 2] (save_from (Some []) [0]))
        (initial_walk line_space [0] [1 / 2] (save_from (Some []) [0]))
   \<and> \<not> walk_dist (initial_walk line_space [0] [1 / 2] (save_from (Some []) [0]))
          < delta line_space + machine_epsilon
   \<and> loop_body line_space line_linalg [1 / 2] True
        (initial_walk line_space [0] [1 / 2] (save_from (Some []) [0]))
       = Inr (Continue \<lparr>walk_dist = 1 / 4, walk_previous = [1 / 4], walk_j = [[]],
                        walk_stateList = Some [[0], [1 / 4]]\<rparr>)
   \<and> space_distance line_space [1 / 4] [1 / 2] < space_distance line_space [0] [1 / 2]
   \<and> corrected_point mirror_linalg [[]] [] [0] [1 / 4] = Some [- (1 / 4)]
   \<and> space_distance line_space [- (1 / 4)] [1 / 2] \<ge> 1 / 2
   \<and> (\<exists>k sl. \<forall>fuel.
         traverse_loop (Suc fuel) line_space mirror_linalg [1 / 2] True
           (initial_walk line_space [0] [1 / 2] (save_from (Some []) [0])) = Some (Inr (False, sl))
         \<and> traverseManifold (k + Suc fuel) line_space mirror_linalg [0] [1 / 2] True (Some [])
             = Some (Inr (False, sl)))"
proof -
  let ?w = "initial_walk line_space [0] [1 / 2] (save_from (Some []) [0])"
  let ?w' = "\<lparr>walk_dist = 1 / 4, walk_previous = [1 / 4], walk_j = [[]],
              walk_stateList = Some [[0], [1 / 4]]\<rparr>"
  have n: "validSegmentCount line_space [0] [1 / 2] \<noteq> 0"
    by (simp add: line_space_def)
  have sat: "isSatisfied (constraint_of line_space) [0]"
    by (rule line_satisfied)
  have v: "visits line_space line_linalg [1 / 2] True ?w ?w"
    by (rule visits.start)
  have vm: "visits line_space mirror_linalg [1 / 2] True ?w ?w"
    by (rule visits.start)
  have far: "\<not> walk_dist ?w < delta line_space + machine_epsilon"
    by (simp add: line_walk_start) (simp add: line_space_def machine_epsilon_def)
  have body: "loop_body line_space line_linalg [1 / 2] True ?w = Inr (Continue ?w')"
    by (simp only: line_walk_start line_walk_pass)
  have closer: "space_distance line_space (walk_previous ?w') [1 / 2]
      < space_distance line_space (walk_previous ?w) [1 / 2]"
    using monotonic_progress [OF n sat v far] body by blast
  have c: "constraint_of line_space = free_line"
    by (simp add: line_space_def)
  have cp: "corrected_point mirror_linalg
             (jacobian (constraint_of line_space) (walk_previous ?w) (walk_j ?w))
             (func (constraint_of line_space) (walk_previous ?w)) (walk_previous ?w)
             (interpolate (walk_previous ?w) [1 / 2] (delta line_space / walk_dist ?w)) = Some [- (1 / 4)]"
    by (simp add: line_walk_start c free_line_jacobian mirror_walk_corrected)
       (simp add: free_line_def interpolate_def line_space_def mirror_walk_corrected)
  have away: "space_distance line_space [- (1 / 4)] [1 / 2] \<ge> walk_dist ?w"
    by (simp add: line_walk_start) (simp add: line_space_def)
  have stop: "\<exists>k sl. \<forall>fuel.
         traverse_loop (Suc fuel) line_space mirror_linalg [1 / 2] True ?w = Some (Inr (False, sl))
         \<and> traverseManifold (k + Suc fuel) line_space mirror_linalg [0] [1 / 2] True (Some [])
             = Some (Inr (False, sl))"
    using monotonic_progress [OF n sat vm far] cp away by blast
  have "space_distance line_space [1 / 4] [1 / 2] < space_distance line_space [0] [1 / 2]"
    using closer by (simp add: line_walk_start)
  moreover have "space_distance line_space [- (1 / 4)] [1 / 2] \<ge> 1 / 2"
    using away by (simp add: line_walk_start)
  ultimately show ?thesis
    using n sat v far body mirror_walk_corrected stop by blast
qed

text \<open>
  The path collector during the loop: the loop only appends, its last element is
  \<open>previous\<close>, and a run that ends with a \<^verbatim>\<open>break\<close> leaves a last element other than the
  target, provided the target is within one step of itself.
\<close>

lemma traverse_loop_path:
  assumes "traverse_loop fuel S L to interp w = Some (Inr (there, sl))"
    and "walk_stateList w = Some p" and "p \<noteq> []" and "last p = walk_previous w"
    and "walk_dist w = space_distance S (walk_previous w) to"
  shows "\<exists>pushed. sl = Some (p @ pushed)
           \<and> (\<not> there \<and> space_distance S to to < delta S + machine_epsilon \<longrightarrow> last (p @ pushed) \<noteq> to)"
  using assms
proof (induction fuel arbitrary: w p)
  case 0
  then show ?case by simp
next
  case (Suc fuel)
  show ?case
  proof (cases "walk_dist w < delta S + machine_epsilon")
    case True
    with Suc.prems(1,2) have "there" and "sl = Some (p @ [])"
      by simp_all
    then show ?thesis by blast
  next
    case far: False
    show ?thesis
    proof (cases "loop_body S L to interp w")
      case (Inl e)
      with far Suc.prems(1) show ?thesis by simp
    next
      case (Inr st)
      show ?thesis
      proof (cases st)
        case (Break sl0)
        with Inr far Suc.prems(1) have res: "\<not> there" "sl = sl0"
          by simp_all
        from Break Inr have "loop_body S L to interp w = Inr (Break sl0)"
          by simp
        from loop_body_Break [OF this]
        consider "sl0 = walk_stateList w"
          | c where "sl0 = push_back (walk_stateList w) c" "space_distance S c to \<ge> walk_dist w"
          by blast
        then show ?thesis
        proof cases
          case 1
          with res Suc.prems(2) have "sl = Some (p @ [])"
            by simp
          moreover have "space_distance S to to < delta S + machine_epsilon \<longrightarrow> last (p @ []) \<noteq> to"
            using far Suc.prems(4,5) by auto
          ultimately show ?thesis by blast
        next
          case 2
          with res Suc.prems(2) have "sl = Some (p @ [c])"
            by (simp add: push_back_def)
          moreover have "space_distance S to to < delta S + machine_epsilon \<longrightarrow> last (p @ [c]) \<noteq> to"
            using far 2(2) by auto
          ultimately show ?thesis by blast
        qed
      next
        case (Continue w')
        with Inr have cont: "loop_body S L to interp w = Inr (Continue w')"
          by simp
        with far Suc.prems(1) have run: "traverse_loop fuel S L to interp w' = Some (Inr (there, sl))"
          by simp
        from loop_body_Continue [OF cont] obtain c where
          c: "walk_previous w' = c" "walk_dist w' = space_distance S c to"
             "walk_stateList w' = push_back (walk_stateList w) c"
          by blast
        from c(3) Suc.prems(2) have sl': "walk_stateList w' = Some (p @ [c])"
          by (simp add: push_back_def)
        have ne: "p @ [c] \<noteq> []" and la: "last (p @ [c]) = walk_previous w'"
          and di: "walk_dist w' = space_distance S (walk_previous w') to"
          using c(1,2) by simp_all
        have "\<exists>pushed. sl = Some ((p @ [c]) @ pushed)
           \<and> (\<not> there \<and> space_distance S to to < delta S + machine_epsilon \<longrightarrow> last ((p @ [c]) @ pushed) \<noteq> to)"
          using run sl' ne la di by (rule Suc.IH)
        then obtain pushed where "sl = Some (p @ (c # pushed))"
          and "\<not> there \<and> space_distance S to to < delta S + machine_epsilon \<longrightarrow> last (p @ (c # pushed)) \<noteq> to"
          by auto
        then show ?thesis by blast
      qed
    qed
  qed
qed

lemma line_walk_run:
  "traverseManifold 2 line_space line_linalg [0] [1 / 2] interp (Some l)
     = Some (Inr (True, Some [[0], [1 / 4], [1 / 2]]))"
proof -
  have far: "\<not> (1 / 2 :: real) < delta line_space + machine_epsilon"
    by (simp add: line_space_def machine_epsilon_def)
  have near: "(1 / 4 :: real) < delta line_space + machine_epsilon"
    by (simp add: line_space_def machine_epsilon_def)
  have "traverse_loop (Suc (Suc 0)) line_space line_linalg [1 / 2] interp
          \<lparr>walk_dist = 1 / 2, walk_previous = [0], walk_j = [[]], walk_stateList = Some [[0]]\<rparr>
        = Some (Inr (True, Some [[0], [1 / 4]]))"
    using far near by (simp add: line_walk_pass)
  moreover have "validSegmentCount line_space [0] [1 / 2] \<noteq> 0"
    by (simp add: line_space_def)
  moreover have "initial_walk line_space [0] [1 / 2] (save_from (Some l) [0])
     = \<lparr>walk_dist = 1 / 2, walk_previous = [0], walk_j = [[]], walk_stateList = Some [[0]]\<rparr>"
    by (simp add: initial_walk_def save_from_def push_back_def line_space_def free_line_def new_matrix_def)
  ultimately show ?thesis
    by (simp add: traverseManifold_def Let_def line_satisfied push_back_def numeral_2_eq_2
        del: traverse_loop.simps)
qed

lemma mirror_walk_run:
  "traverseManifold 1 line_space mirror_linalg [0] [1 / 2] interp (Some l)
     = Some (Inr (False, Some [[0], [- (1 / 4)]]))"
proof -
  have far: "\<not> (1 / 2 :: real) < delta line_space + machine_epsilon"
    by (simp add: line_space_def machine_epsilon_def)
  have fl: "func free_line [0] = []"
    by (simp add: free_line_def)
  have body: "loop_body line_space mirror_linalg [1 / 2] interp
       \<lparr>walk_dist = 1 / 2, walk_previous = [0], walk_j = [[]], walk_stateList = Some [[0]]\<rparr>
     = Inr (Break (Some [[0], [- (1 / 4)]]))"
    by (simp add: loop_body_def Let_def free_line_jacobian fl mirror_walk_corrected push_back_def
        interpolate_def line_space_def)
  have "traverse_loop (Suc 0) line_space mirror_linalg [1 / 2] interp
          \<lparr>walk_dist = 1 / 2, walk_previous = [0], walk_j = [[]], walk_stateList = Some [[0]]\<rparr>
        = Some (Inr (False, Some [[0], [- (1 / 4)]]))"
    using far by (simp add: body)
  moreover have "validSegmentCount line_space [0] [1 / 2] \<noteq> 0"
    by (simp add: line_space_def)
  moreover have "initial_walk line_space [0] [1 / 2] (save_from (Some l) [0])
     = \<lparr>walk_dist = 1 / 2, walk_previous = [0], walk_j = [[]], walk_stateList = Some [[0]]\<rparr>"
    by (simp add: initial_walk_def save_from_def push_back_def line_space_def free_line_def new_matrix_def)
  ultimately show ?thesis
    by (simp add: traverseManifold_def Let_def line_satisfied
        del: traverse_loop.simps)
qed

text \<open>
  C6. With a path collector, the sequence that \<^verbatim>\<open>traverseManifold\<close> produces begins with
  a copy of \<open>from\<close>; whenever the flag is true and the step count is not zero, a copy of
  \<open>to\<close> is appended as its last element; and it ends with a copy of \<open>to\<close> only if the flag
  is true. States are compared by their coordinates, so the last part is about a target
  that the space puts within one step of itself, and a step count that is zero for equal
  end points.
\<close>

theorem path_endpoints:
  assumes "traverseManifold fuel S L from to interp (Some l) = Some (Inr (there, sl))"
  shows "\<exists>path. sl = Some path \<and> path \<noteq> [] \<and> hd path = from
           \<and> (there \<and> validSegmentCount S from to \<noteq> 0 \<longrightarrow> (\<exists>pushed. path = from # pushed @ [to]))
           \<and> (space_distance S to to < delta S + machine_epsilon
                \<and> (from = to \<longrightarrow> validSegmentCount S from to = 0)
                \<and> last path = to \<longrightarrow> there)"
proof (cases "validSegmentCount S from to = 0")
  case True
  with assms show ?thesis
    by (auto simp: traverseManifold_def save_from_def push_back_def)
next
  case n: False
  show ?thesis
  proof (cases "isSatisfied (constraint_of S) from")
    case False
    with n assms have "\<not> there" "sl = Some [from]"
      by (auto simp: traverseManifold_def save_from_def push_back_def)
    with n show ?thesis by auto
  next
    case True
    let ?w = "initial_walk S from to (Some [from])"
    from n True assms obtain sl0 where
      run: "traverse_loop fuel S L to interp ?w = Some (Inr (there, sl0))"
      and sl: "sl = (if there then push_back sl0 to else sl0)"
      by (auto simp: traverseManifold_def save_from_def push_back_def Let_def
               split: option.splits sum.splits)
    have "\<exists>pushed. sl0 = Some ([from] @ pushed)
           \<and> (\<not> there \<and> space_distance S to to < delta S + machine_epsilon \<longrightarrow> last ([from] @ pushed) \<noteq> to)"
      using run by (rule traverse_loop_path) (simp_all add: initial_walk_def)
    then obtain pushed where sl0: "sl0 = Some (from # pushed)"
      and ne: "\<not> there \<and> space_distance S to to < delta S + machine_epsilon \<longrightarrow> last (from # pushed) \<noteq> to"
      by auto
    show ?thesis
    proof (cases there)
      case True
      with sl sl0 have "sl = Some (from # pushed @ [to])"
        by (simp add: push_back_def)
      with True show ?thesis by auto
    next
      case False
      with sl sl0 have "sl = Some (from # pushed)"
        by simp
      with False ne show ?thesis by auto
    qed
  qed
qed

theorem path_endpoints_witness:
  "traverseManifold 2 line_space line_linalg [0] [1 / 2] True (Some [])
     = Some (Inr (True, Some [[0], [1 / 4], [1 / 2]]))
   \<and> validSegmentCount line_space [0] [1 / 2] \<noteq> 0
   \<and> space_distance line_space [1 / 2] [1 / 2] < delta line_space + machine_epsilon
   \<and> [0 :: real] \<noteq> [1 / 2]
   \<and> (\<exists>path. Some [[0], [1 / 4], [1 / 2 :: real]] = Some path \<and> path \<noteq> [] \<and> hd path = [0]
         \<and> (\<exists>pushed. path = [0] # pushed @ [[1 / 2]]) \<and> last path = [1 / 2])
   \<and> traverseManifold 1 line_space mirror_linalg [0] [1 / 2] True (Some [])
     = Some (Inr (False, Some [[0], [- (1 / 4)]]))
   \<and> (\<exists>path. Some [[0], [- (1 / 4 :: real)]] = Some path \<and> path \<noteq> [] \<and> hd path = [0]
         \<and> last path \<noteq> [1 / 2])"
proof -
  have n: "validSegmentCount line_space [0] [1 / 2] \<noteq> 0"
    by (simp add: line_space_def)
  have self: "space_distance line_space [1 / 2] [1 / 2] < delta line_space + machine_epsilon"
    by (simp add: line_space_def machine_epsilon_def)
  have ne: "[0 :: real] \<noteq> [1 / 2]"
    by simp
  have reached: "\<exists>path. Some [[0], [1 / 4], [1 / 2 :: real]] = Some path \<and> path \<noteq> [] \<and> hd path = [0]
         \<and> (\<exists>pushed. path = [0] # pushed @ [[1 / 2]]) \<and> last path = [1 / 2]"
    using path_endpoints [OF line_walk_run [of True "[]"]] n by auto
  have blocked: "\<exists>path. Some [[0], [- (1 / 4 :: real)]] = Some path \<and> path \<noteq> [] \<and> hd path = [0]
         \<and> last path \<noteq> [1 / 2]"
    using path_endpoints [OF mirror_walk_run [of True "[]"]] self ne by auto
  show ?thesis
    using line_walk_run [of True "[]"] mirror_walk_run [of True "[]"] n self ne reached blocked
    by blast
qed

text \<open>
  The product of line 107 is defined only for a kernel matrix with as many columns as
  the space has dimensions.
\<close>

lemma corrected_point_dimensions:
  assumes "length (lu_kernel L j) \<noteq> min (length scratch) (length pV)"
  shows "corrected_point L j f pV scratch = None"
  using assms by (simp add: corrected_point_def matrix_product_def rowwise_reverse_def vsub_def)

lemma axis_jacobian: "jacobian axis_constraint [0, 0] (new_matrix 1 2) = [[1], [0]]"
  by (simp add: jacobian_def jacobian_numeric_def axis_constraint_def jacobian_column_def
      step_size_def sqrt_machine_epsilon new_matrix_def vsub_def vadd_def smult_def sdiv_def
      Let_def upt_rec numeral_2_eq_2)

text \<open>
  C1. In every pass of the loop the corrected point is the previous point, minus the least
  squares solution of \<open>J d = f\<close>, plus the projection of the raw step \<open>trial - previous\<close> onto
  the null space of \<open>J\<close>, so that tangential motion is kept. The code multiplies the
  kernel matrix by the raw step directly. On the plane constrained to the axis
  \<open>x\<^sub>0 = 0\<close>, walking along the axis from \<open>(0, 0)\<close> towards \<open>(0, 1)\<close>: the Jacobian is the row
  \<open>(1 0)\<close>, the raw step \<open>(0, 1/4)\<close> lies in its null space, the kernel matrix has the one
  column \<open>(0, 1)\<close>, and its product with the step, a vector of two coefficients, is not
  defined. No corrected point is produced, where the claim's is \<open>(0, 1/4)\<close>.
\<close>

theorem axis_walk_invalid_product:
  "traverseManifold 1 plane_space axis_linalg [0, 0] [0, 1] True (Some []) = Some (Inl InvalidMatrixProduct)
   \<and> isSatisfied (constraint_of plane_space) [0, 0]
   \<and> jacobian (constraint_of plane_space) [0, 0] (new_matrix 1 2) = [[1], [0]]
   \<and> matrix_product [[1], [0]] [0, 1 / 4] = Some [0]
   \<and> rowwise_reverse (lu_kernel axis_linalg [[1], [0]]) = [[0, 1]]
   \<and> interpolate [0, 0] [0, 1] (delta plane_space / space_distance plane_space [0, 0] [0, 1]) = [0, 1 / 4]"
proof -
  have sat: "isSatisfied (constraint_of plane_space) [0, 0]"
    by (simp add: isSatisfied_def allFinite_def distance_def plane_space_def axis_constraint_def vnorm_single)
  have d: "space_distance plane_space [0, 0] [0, 1] = 1"
    by (simp add: plane_space_def euclidean_distance_def vnorm_def vsub_def)
  define W where "W = initial_walk plane_space [0, 0] [0, 1] (save_from (Some []) [0, 0])"
  have c: "constraint_of plane_space = axis_constraint"
    by (simp add: plane_space_def)
  have fields: "walk_dist W = 1" "walk_previous W = [0, 0]" "walk_j W = new_matrix 1 2"
    by (simp_all add: W_def initial_walk_def d c) (simp add: axis_constraint_def)
  have body: "loop_body plane_space axis_linalg [0, 1] True W = Inl InvalidMatrixProduct"
    by (simp add: loop_body_def Let_def fields c axis_jacobian corrected_point_dimensions
        axis_linalg_def interpolate_def)
  have far: "\<not> walk_dist W < delta plane_space + machine_epsilon"
    by (simp add: fields plane_space_def machine_epsilon_def)
  have loop: "traverse_loop (Suc 0) plane_space axis_linalg [0, 1] True W = Some (Inl InvalidMatrixProduct)"
    using far by (simp add: body)
  have n: "validSegmentCount plane_space [0, 0] [0, 1] \<noteq> 0"
    by (simp add: plane_space_def)
  have "traverseManifold 1 plane_space axis_linalg [0, 0] [0, 1] True (Some []) = Some (Inl InvalidMatrixProduct)"
    using n sat loop by (simp add: traverseManifold_def Let_def W_def del: traverse_loop.simps)
  moreover have "matrix_product [[1], [0]] [0, 1 / 4] = Some [0]"
    by (simp add: matrix_product_def mat_rows_def vadd_def smult_def)
  moreover have "rowwise_reverse (lu_kernel axis_linalg [[1], [0]]) = [[0, 1]]"
    by (simp add: rowwise_reverse_def axis_linalg_def)
  moreover have "interpolate [0, 0] [0, 1] (delta plane_space / space_distance plane_space [0, 0] [0, 1]) = [0, 1 / 4]"
    by (simp add: d interpolate_def) (simp add: plane_space_def)
  ultimately show ?thesis
    using sat axis_jacobian c by simp
qed

end
